theory Spec2Isabelle
  imports Main "HOL-Library.Multiset"
begin

section \<open>Game constants and data model (server.py, lines 29--102)\<close>

definition SHAPES :: "string list" where
  "SHAPES = [''star'', ''8star'', ''square'', ''circle'', ''clover'', ''diamond'']"

definition COLORS :: "string list" where
  "COLORS = [''red'', ''green'', ''blue'', ''yellow'', ''orange'', ''purple'']"

definition TILES_PER_TYPE :: nat where
  "TILES_PER_TYPE = 30"

definition INITIAL_HAND_SIZE :: nat where
  "INITIAL_HAND_SIZE = 6"

datatype GameStatus = WAITING | IN_PROGRESS | FINISHED

datatype PlayerType = HUMAN | AI

datatype ActionType = PASS | EXCHANGE | PLACE

text \<open>
  The pydantic models. The source calls the identifier field of \<open>Tile\<close>, \<open>Player\<close> and
  \<open>GameState\<close> \<open>id\<close>; here they are \<open>tid\<close>, \<open>pid\<close> and \<open>gid\<close>. The field
  \<open>turn_number\<close> of \<open>PlacedTile\<close> is \<open>placed_turn\<close>, since \<open>GameState\<close> has a field of
  the same name. Python integers are unbounded: \<open>int\<close>.
\<close>

record Tile =
  shape :: string
  color :: string
  tid :: string

record Position =
  row :: int
  col :: int

record PlacedTile =
  tile :: Tile
  position :: Position
  placed_by :: string
  placed_turn :: int

record Player =
  pid :: string
  name :: string
  player_type :: PlayerType
  hand :: "Tile list"
  score :: int
  is_active :: bool

record GameAction =
  action_type :: ActionType
  player_id :: string
  tiles :: "Tile list option"
  positions :: "Position list option"

record GameState =
  gid :: string
  status :: GameStatus
  players :: "Player list"
  board :: "PlacedTile list"
  remaining_tiles :: "Tile list"
  current_player_index :: int
  turn_number :: int
  created_at :: nat
  winner_id :: "string option"
  consecutive_passes :: int

record CreateGameRequest =
  player_name :: string
  num_ai_players :: int

record GameActionRequest =
  game_id :: string
  action :: GameAction

text \<open>
  Everything the server takes from outside the program: the identifiers that \<open>uuid4\<close>
  hands out (the game's, the k-th player's, the k-th tile's), the clock, and the numbers the
  random generator returns to \<open>random.shuffle\<close>. No property below assumes anything
  about them.
\<close>

record Env =
  game_uuid :: string
  player_uuid :: "nat \<Rightarrow> string"
  tile_uuid :: "nat \<Rightarrow> string"
  utcnow :: nat
  draws :: "nat \<Rightarrow> nat"

text \<open>
  Every failure of a request: the \<open>HTTPException\<close>s that the handlers raise, and the two
  Python exceptions that indexing an empty \<open>players\<close> list would raise.
\<close>

datatype error =
    GameNotFound
  | GameNotInProgress
  | OutOfTurn
  | MissingActionPayload
  | InvalidPlacement nat
  | TileNotInHand
  | IndexError
  | ZeroDivisionError

section \<open>The library's shuffle\<close>

text \<open>
  \<open>random.shuffle(x)\<close> runs \<open>for i in reversed(range(1, len(x))): j = randbelow(i + 1);
  x[i], x[j] = x[j], x[i]\<close>. The generator is the parameter \<open>r\<close>: at index \<open>i\<close> it
  yields \<open>r i mod (i + 1)\<close>, so every sequence of choices, and with it every outcome of
  the shuffle, is some \<open>r\<close>.
\<close>

definition swap :: "nat \<Rightarrow> nat \<Rightarrow> 'a list \<Rightarrow> 'a list" where
  "swap i j xs = xs[i := xs ! j, j := xs ! i]"

fun shuffle_steps :: "(nat \<Rightarrow> nat) \<Rightarrow> nat \<Rightarrow> 'a list \<Rightarrow> 'a list" where
  "shuffle_steps r 0 xs = xs"
| "shuffle_steps r (Suc i) xs =
     shuffle_steps r i (swap (Suc i) (r (Suc i) mod Suc (Suc i)) xs)"

definition shuffle :: "(nat \<Rightarrow> nat) \<Rightarrow> 'a list \<Rightarrow> 'a list" where
  "shuffle r xs = shuffle_steps r (length xs - 1) xs"

section \<open>Game logic functions (server.py, lines 105--186)\<close>

text \<open>The three nested loops of \<open>create_all_tiles\<close>, in the order they append.\<close>

definition tile_types :: "(string \<times> string) list" where
  "tile_types = [(s, c). s \<leftarrow> SHAPES, c \<leftarrow> COLORS, _ \<leftarrow> [0..<TILES_PER_TYPE]]"

definition create_all_tiles :: "(nat \<Rightarrow> string) \<Rightarrow> (nat \<Rightarrow> nat) \<Rightarrow> Tile list" where
  "create_all_tiles uuid r =
     shuffle r (map (\<lambda>(k, (s, c)). \<lparr>shape = s, color = c, tid = uuid k\<rparr>)
                    (enumerate 0 tile_types))"

text \<open>
  \<open>deal_initial_hands\<close>: each player in turn takes the slice \<open>[:INITIAL_HAND_SIZE]\<close> of
  the pile, which keeps the rest. The result is the players and the pile that is left.
\<close>

fun deal_initial_hands :: "Player list \<Rightarrow> Tile list \<Rightarrow> Player list \<times> Tile list" where
  "deal_initial_hands [] pile = ([], pile)"
| "deal_initial_hands (p # ps) pile =
     (let (ps', pile') = deal_initial_hands ps (drop INITIAL_HAND_SIZE pile)
      in (p\<lparr>hand := take INITIAL_HAND_SIZE pile\<rparr> # ps', pile'))"

definition place_initial_tile :: "GameState \<Rightarrow> GameState" where
  "place_initial_tile gs =
     (case remaining_tiles gs of
        [] \<Rightarrow> gs
      | initial_tile # rest \<Rightarrow>
          gs\<lparr>remaining_tiles := rest,
             board := board gs @
               [\<lparr>tile = initial_tile, position = \<lparr>row = 0, col = 0\<rparr>,
                 placed_by = ''referee'', placed_turn = 0\<rparr>]\<rparr>)"

text \<open>
  \<open>board_dict\<close> is the dict comprehension of \<open>get_neighbors\<close>: the board's tiles are
  stored in board order under their \<open>(row, col)\<close>, a later tile replacing an earlier one at
  the same key. \<open>get_neighbors\<close> returns the four lookups in the order of the dict
  literal.
\<close>

definition board_dict :: "PlacedTile list \<Rightarrow> (int \<times> int) \<rightharpoonup> PlacedTile" where
  "board_dict b = fold (\<lambda>pt m. m((row (position pt), col (position pt)) \<mapsto> pt)) b Map.empty"

definition get_neighbors :: "Position \<Rightarrow> PlacedTile list \<Rightarrow> (string \<times> PlacedTile option) list" where
  "get_neighbors p b =
     [(''up'', board_dict b (row p - 1, col p)),
      (''down'', board_dict b (row p + 1, col p)),
      (''left'', board_dict b (row p, col p - 1)),
      (''right'', board_dict b (row p, col p + 1))]"

definition validate_tile_placement :: "Tile \<Rightarrow> Position \<Rightarrow> PlacedTile list \<Rightarrow> bool" where
  "validate_tile_placement t p b =
     (if list_ex (\<lambda>placed_tile. row (position placed_tile) = row p
                               \<and> col (position placed_tile) = col p) b
      then False
      else
        let neighbors = get_neighbors p b;
            adjacent_neighbors = [n. (_, Some n) \<leftarrow> neighbors]
        in if adjacent_neighbors = [] \<and> b \<noteq> [] then False
           else list_all (\<lambda>neighbor. color t = color (tile neighbor)
                                    \<or> shape t = shape (tile neighbor)) adjacent_neighbors)"

text \<open>
  \<open>calculate_score\<close>: the loop adds, for each placed tile, the lengths of the two lists
  it builds (the board's tiles of that row, or column, with the new tile appended, then
  sorted).
\<close>

definition temp_tile :: "Tile \<Rightarrow> Position \<Rightarrow> PlacedTile" where
  "temp_tile t p = \<lparr>tile = t, position = p, placed_by = ''temp'', placed_turn = 0\<rparr>"

definition row_tiles :: "Tile \<Rightarrow> Position \<Rightarrow> PlacedTile list \<Rightarrow> PlacedTile list" where
  "row_tiles t p b =
     sort_key (\<lambda>x. col (position x)) (filter (\<lambda>pt. row (position pt) = row p) b @ [temp_tile t p])"

definition col_tiles :: "Tile \<Rightarrow> Position \<Rightarrow> PlacedTile list \<Rightarrow> PlacedTile list" where
  "col_tiles t p b =
     sort_key (\<lambda>x. row (position x)) (filter (\<lambda>pt. col (position pt) = col p) b @ [temp_tile t p])"

fun score_loop :: "int \<Rightarrow> (Tile \<times> Position) list \<Rightarrow> PlacedTile list \<Rightarrow> int" where
  "score_loop sc [] b = sc"
| "score_loop sc ((t, p) # rest) b =
     score_loop (sc + int (length (row_tiles t p b)) + int (length (col_tiles t p b))) rest b"

definition calculate_score :: "(Tile \<times> Position) list \<Rightarrow> PlacedTile list \<Rightarrow> int" where
  "calculate_score placed_tiles b = score_loop (int (length placed_tiles)) placed_tiles b"

section \<open>The store\<close>

text \<open>
  The collection \<open>db.games\<close> is the list of its documents: \<open>insert_one\<close> appends,
  \<open>find_one\<close> returns the first document with the given \<open>id\<close>, \<open>replace_one\<close>
  replaces that document.
\<close>

type_synonym games = "GameState list"

definition insert_one :: "GameState \<Rightarrow> games \<Rightarrow> games" where
  "insert_one gs db = db @ [gs]"

definition find_one :: "string \<Rightarrow> games \<Rightarrow> GameState option" where
  "find_one i db = find (\<lambda>g. gid g = i) db"

fun replace_one :: "string \<Rightarrow> GameState \<Rightarrow> games \<Rightarrow> games" where
  "replace_one i gs [] = []"
| "replace_one i gs (g # db) = (if gid g = i then gs # db else g # replace_one i gs db)"

section \<open>Creating a game (server.py, lines 189--213)\<close>

text \<open>Python's \<open>str\<close> of a natural number, for the names \<open>f"AI Player {i+1}"\<close>.\<close>

fun str_nat :: "nat \<Rightarrow> string" where
  "str_nat n = (if n < 10 then [''0123456789'' ! n]
                else str_nat (n div 10) @ [''0123456789'' ! (n mod 10)])"

definition new_player :: "string \<Rightarrow> string \<Rightarrow> PlayerType \<Rightarrow> Player" where
  "new_player i n ty =
     \<lparr>pid = i, name = n, player_type = ty, hand = [], score = 0, is_active = True\<rparr>"

definition new_game_state :: "Env \<Rightarrow> GameState" where
  "new_game_state env =
     \<lparr>gid = game_uuid env, status = WAITING, players = [], board = [], remaining_tiles = [],
       current_player_index = 0, turn_number = 0, created_at = utcnow env,
       winner_id = None, consecutive_passes = 0\<rparr>"

text \<open>\<open>range(n)\<close> is empty for a negative \<open>n\<close>, as \<open>[0..<nat n]\<close> is.\<close>

definition initial_players :: "Env \<Rightarrow> CreateGameRequest \<Rightarrow> Player list" where
  "initial_players env request =
     new_player (player_uuid env 0) (player_name request) HUMAN #
     map (\<lambda>i. new_player (player_uuid env (Suc i)) (''AI Player '' @ str_nat (i + 1)) AI)
         [0..<nat (num_ai_players request)]"

definition initial_state :: "Env \<Rightarrow> CreateGameRequest \<Rightarrow> GameState" where
  "initial_state env request =
     (let game_state = (new_game_state env)\<lparr>players := initial_players env request\<rparr>;
          game_state = game_state\<lparr>remaining_tiles := create_all_tiles (tile_uuid env) (draws env)\<rparr>;
          (ps, pile) = deal_initial_hands (players game_state) (remaining_tiles game_state);
          game_state = game_state\<lparr>players := ps, remaining_tiles := pile\<rparr>;
          game_state = place_initial_tile game_state
      in game_state\<lparr>status := IN_PROGRESS\<rparr>)"

definition create_game :: "Env \<Rightarrow> games \<Rightarrow> CreateGameRequest \<Rightarrow> GameState \<times> games" where
  "create_game env db request =
     (let game_state = initial_state env request
      in (game_state, insert_one game_state db))"

section \<open>Performing an action (server.py, lines 223--315)\<close>

text \<open>
  \<open>xs[i]\<close> in Python: a negative index counts from the end, an index out of range raises
  \<open>IndexError\<close> (here \<open>None\<close>). The result is the position the index stands for.
\<close>

definition py_index :: "'a list \<Rightarrow> int \<Rightarrow> nat option" where
  "py_index xs i =
     (let n = int (length xs)
      in if 0 \<le> i \<and> i < n then Some (nat i)
         else if - n \<le> i \<and> i < 0 then Some (nat (n + i))
         else None)"

text \<open>The validation loop: the index of the first pair that fails, if any.\<close>

fun first_invalid :: "nat \<Rightarrow> (Tile \<times> Position) list \<Rightarrow> PlacedTile list \<Rightarrow> nat option" where
  "first_invalid i [] b = None"
| "first_invalid i ((t, p) # rest) b =
     (if \<not> validate_tile_placement t p b then Some i else first_invalid (Suc i) rest b)"

text \<open>
  The removal loop: for each tile of the action, the first tile of the hand with its
  shape and color is looked up (\<open>next\<close>, \<open>StopIteration\<close> being \<open>None\<close>) and
  \<open>list.remove\<close> deletes the first element equal to it.
\<close>

fun remove_from_hand :: "Tile list \<Rightarrow> Tile list \<Rightarrow> Tile list option" where
  "remove_from_hand [] h = Some h"
| "remove_from_hand (t # ts) h =
     (case find (\<lambda>x. shape x = shape t \<and> color x = color t) h of
        None \<Rightarrow> None
      | Some tile_in_hand \<Rightarrow> remove_from_hand ts (remove1 tile_in_hand h))"

definition placed_tiles_of :: "string \<Rightarrow> int \<Rightarrow> (Tile \<times> Position) list \<Rightarrow> PlacedTile list" where
  "placed_tiles_of by_id turn pairs =
     map (\<lambda>(t, p). \<lparr>tile = t, position = p, placed_by = by_id, placed_turn = turn\<rparr>) pairs"

text \<open>
  The three branches. \<open>k\<close> is the position of the current player in \<open>players\<close>; the
  source updates that player object in place, the model writes it back at \<open>k\<close>.
\<close>

definition do_pass :: "GameState \<Rightarrow> GameState" where
  "do_pass gs = gs\<lparr>consecutive_passes := consecutive_passes gs + 1\<rparr>"

definition do_exchange :: "(nat \<Rightarrow> nat) \<Rightarrow> GameState \<Rightarrow> nat \<Rightarrow> GameState" where
  "do_exchange r gs k =
     (let current_player = players gs ! k;
          returned_tiles = hand current_player;
          pile = shuffle r (remaining_tiles gs @ returned_tiles);
          new_hand_size = min (length returned_tiles) (length pile)
      in gs\<lparr>players := (players gs)[k := current_player\<lparr>hand := take new_hand_size pile\<rparr>],
            remaining_tiles := drop new_hand_size pile,
            consecutive_passes := 0\<rparr>)"

text \<open>
  The placement once it has been validated and the tiles have left the hand (lines
  274--299); \<open>h\<close> is the hand after the removals. \<open>board[:-n]\<close> for \<open>n > 0\<close> is the
  board without its last \<open>n\<close> tiles, empty when there are no more than \<open>n\<close>.
\<close>

definition place_tiles :: "GameState \<Rightarrow> nat \<Rightarrow> Tile list \<Rightarrow> Position list \<Rightarrow> Tile list \<Rightarrow> GameState" where
  "place_tiles gs k ts ps h =
     (let current_player = players gs ! k;
          board' = board gs @
            placed_tiles_of (pid current_player) (turn_number gs) (zip ts ps);
          sc = calculate_score (zip ts ps) (take (length board' - length ts) board');
          new_tiles_count = min (length ts) (length (remaining_tiles gs));
          h' = h @ take new_tiles_count (remaining_tiles gs);
          current_player = current_player\<lparr>hand := h', score := score current_player + sc\<rparr>;
          gs = gs\<lparr>board := board',
                  remaining_tiles := drop new_tiles_count (remaining_tiles gs),
                  consecutive_passes := 0\<rparr>
      in if h' = []
         then gs\<lparr>players := (players gs)
                       [k := current_player\<lparr>score := score current_player + 6\<rparr>],
                 status := FINISHED,
                 winner_id := Some (pid current_player)\<rparr>
         else gs\<lparr>players := (players gs)[k := current_player]\<rparr>)"

text \<open>The checks of the place branch (lines 257--272), in the order the source makes them.\<close>

definition do_place :: "GameState \<Rightarrow> nat \<Rightarrow> GameAction \<Rightarrow> error + GameState" where
  "do_place gs k a =
     (case (tiles a, positions a) of
        (Some ts, Some ps) \<Rightarrow>
          if ts = [] \<or> ps = [] then Inl MissingActionPayload
          else
            (case first_invalid 0 (zip ts ps) (board gs) of
               Some i \<Rightarrow> Inl (InvalidPlacement i)
             | None \<Rightarrow>
                 (case remove_from_hand ts (hand (players gs ! k)) of
                    None \<Rightarrow> Inl TileNotInHand
                  | Some h \<Rightarrow> Inr (place_tiles gs k ts ps h)))
      | _ \<Rightarrow> Inl MissingActionPayload)"

text \<open>\<open>max(players, key=lambda p: p.score)\<close>: the first player with the greatest score.\<close>

fun max_by_score :: "Player \<Rightarrow> Player list \<Rightarrow> Player" where
  "max_by_score best [] = best"
| "max_by_score best (p # ps) = max_by_score (if score best < score p then p else best) ps"

text \<open>Lines 301--310: the turn moves on, and the game ends when everybody has passed.\<close>

definition next_turn :: "GameState \<Rightarrow> error + GameState" where
  "next_turn gs =
     (case players gs of
        [] \<Rightarrow> Inl ZeroDivisionError
      | p # ps \<Rightarrow>
          let gs = gs\<lparr>current_player_index :=
                         (current_player_index gs + 1) mod int (length (players gs)),
                       turn_number := turn_number gs + 1\<rparr>
          in if int (length (players gs)) \<le> consecutive_passes gs
             then Inr (gs\<lparr>status := FINISHED, winner_id := Some (pid (max_by_score p ps))\<rparr>)
             else Inr gs)"

text \<open>
  \<open>apply_action\<close> is the handler between reading the game and writing it back: it works
  on the \<open>GameState\<close> object built from the stored document.
\<close>

definition apply_action :: "(nat \<Rightarrow> nat) \<Rightarrow> GameState \<Rightarrow> GameAction \<Rightarrow> error + GameState" where
  "apply_action r gs a =
     (if status gs \<noteq> IN_PROGRESS then Inl GameNotInProgress
      else
        (case py_index (players gs) (current_player_index gs) of
           None \<Rightarrow> Inl IndexError
         | Some k \<Rightarrow>
             if player_id a \<noteq> pid (players gs ! k) then Inl OutOfTurn
             else
               (case (case action_type a of
                        PASS \<Rightarrow> Inr (do_pass gs)
                      | EXCHANGE \<Rightarrow> Inr (do_exchange r gs k)
                      | PLACE \<Rightarrow> do_place gs k a) of
                  Inl e \<Rightarrow> Inl e
                | Inr gs' \<Rightarrow> next_turn gs')))"

definition perform_action :: "(nat \<Rightarrow> nat) \<Rightarrow> games \<Rightarrow> GameActionRequest \<Rightarrow> (error + GameState) \<times> games" where
  "perform_action r db request =
     (case find_one (game_id request) db of
        None \<Rightarrow> (Inl GameNotFound, db)
      | Some game_state \<Rightarrow>
          (case apply_action r game_state (action request) of
             Inl e \<Rightarrow> (Inl e, db)
           | Inr gs' \<Rightarrow> (Inr gs', replace_one (game_id request) gs' db)))"

section \<open>Notions used in the statements\<close>

text \<open>
  Where a placed tile lies, the four cells next to a position, the tiles of a board that
  lie at a cell (in board order), the matching rule, and boards with at most one tile per
  cell.
\<close>

definition at :: "PlacedTile \<Rightarrow> int \<times> int" where
  "at pt = (row (position pt), col (position pt))"

definition occupants :: "PlacedTile list \<Rightarrow> int \<Rightarrow> int \<Rightarrow> PlacedTile list" where
  "occupants b r c = filter (\<lambda>pt. row (position pt) = r \<and> col (position pt) = c) b"

definition adjacent :: "Position \<Rightarrow> (int \<times> int) list" where
  "adjacent p = [(row p - 1, col p), (row p + 1, col p), (row p, col p - 1), (row p, col p + 1)]"

definition matches :: "Tile \<Rightarrow> Tile \<Rightarrow> bool" where
  "matches t n = (color t = color n \<or> shape t = shape n)"

definition unique_positions :: "PlacedTile list \<Rightarrow> bool" where
  "unique_positions b = distinct (map (\<lambda>pt. (row (position pt), col (position pt))) b)"

text \<open>
  The number of tiles in a game: those in the hands, on the board and in the pile. An
  action covers its tiles when it names no more tiles than positions. The states of a game
  are the one \<open>create_game\<close> stores and those that successful actions lead to;
  \<open>ok\<close> restricts the actions.
\<close>

definition game_total :: "GameState \<Rightarrow> nat" where
  "game_total gs =
     (\<Sum>p \<leftarrow> players gs. length (hand p)) + length (board gs) + length (remaining_tiles gs)"

definition tiles_covered :: "GameAction \<Rightarrow> bool" where
  "tiles_covered a =
     (case (tiles a, positions a) of
        (Some ts, Some ps) \<Rightarrow> length ts \<le> length ps
      | _ \<Rightarrow> True)"

inductive reachable_by :: "(GameAction \<Rightarrow> bool) \<Rightarrow> GameState \<Rightarrow> bool" for ok where
  start: "reachable_by ok (initial_state env request)"
| step: "reachable_by ok gs \<Longrightarrow> ok a \<Longrightarrow> apply_action r gs a = Inr gs' \<Longrightarrow> reachable_by ok gs'"

section \<open>Example games\<close>

text \<open>
  An environment whose generator makes the shuffle the identity (at index \<open>i\<close> it
  yields \<open>i\<close>), the one-player game it creates, and a two-player game in its eighth
  turn.
\<close>

definition demo_env :: Env where
  "demo_env = \<lparr>game_uuid = ''g1'', player_uuid = (\<lambda>k. ''p'' @ str_nat k),
                tile_uuid = (\<lambda>k. ''t'' @ str_nat k), utcnow = 0, draws = (\<lambda>i. i)\<rparr>"

definition demo_request :: CreateGameRequest where
  "demo_request = \<lparr>player_name = ''Ann'', num_ai_players = 0\<rparr>"

definition star_red :: "string \<Rightarrow> Tile" where
  "star_red i = \<lparr>shape = ''star'', color = ''red'', tid = i\<rparr>"

definition demo_start :: "Tile list \<Rightarrow> GameState" where
  "demo_start pile =
     \<lparr>gid = ''g1'', status = IN_PROGRESS,
       players = [\<lparr>pid = ''p0'', name = ''Ann'', player_type = HUMAN,
                   hand = [star_red ''t0'', star_red ''t1'', star_red ''t2'',
                           star_red ''t3'', star_red ''t4'', star_red ''t5''],
                   score = 0, is_active = True\<rparr>],
       board = [\<lparr>tile = star_red ''t6'', position = \<lparr>row = 0, col = 0\<rparr>,
                  placed_by = ''referee'', placed_turn = 0\<rparr>],
       remaining_tiles = pile,
       current_player_index = 0, turn_number = 0, created_at = 0,
       winner_id = None, consecutive_passes = 0\<rparr>"

definition place_twice_on_a_cell :: GameAction where
  "place_twice_on_a_cell =
     \<lparr>action_type = PLACE, player_id = ''p0'',
       tiles = Some [star_red ''t0'', star_red ''t1''],
       positions = Some [\<lparr>row = 0, col = 1\<rparr>, \<lparr>row = 0, col = 1\<rparr>]\<rparr>"

definition place_two_tiles_one_position :: GameAction where
  "place_two_tiles_one_position =
     \<lparr>action_type = PLACE, player_id = ''p0'',
       tiles = Some [star_red ''t0'', star_red ''t1''],
       positions = Some [\<lparr>row = 0, col = 1\<rparr>]\<rparr>"

definition place_one_tile :: GameAction where
  "place_one_tile =
     \<lparr>action_type = PLACE, player_id = ''p0'',
       tiles = Some [star_red ''t0''],
       positions = Some [\<lparr>row = 0, col = 1\<rparr>]\<rparr>"

definition demo_game :: GameState where
  "demo_game =
     \<lparr>gid = ''g2'', status = IN_PROGRESS,
       players =
         [\<lparr>pid = ''p0'', name = ''Ann'', player_type = HUMAN,
            hand = [\<lparr>shape = ''circle'', color = ''red'', tid = ''a1''\<rparr>],
            score = 12, is_active = True\<rparr>,
          \<lparr>pid = ''p1'', name = ''AI Player 1'', player_type = AI,
            hand = [\<lparr>shape = ''circle'', color = ''red'', tid = ''b1''\<rparr>,
                    \<lparr>shape = ''clover'', color = ''green'', tid = ''b2''\<rparr>],
            score = 12, is_active = True\<rparr>],
       board = [\<lparr>tile = star_red ''t6'', position = \<lparr>row = 0, col = 0\<rparr>,
                  placed_by = ''referee'', placed_turn = 0\<rparr>],
       remaining_tiles = [\<lparr>shape = ''diamond'', color = ''yellow'', tid = ''r1''\<rparr>],
       current_player_index = 1, turn_number = 7, created_at = 0,
       winner_id = None, consecutive_passes = 1\<rparr>"

definition demo_action :: "ActionType \<Rightarrow> string \<Rightarrow> (Tile \<times> Position) list \<Rightarrow> GameAction" where
  "demo_action ty who pairs =
     \<lparr>action_type = ty, player_id = who,
       tiles = (if ty = PLACE then Some (map fst pairs) else None),
       positions = (if ty = PLACE then Some (map snd pairs) else None)\<rparr>"

section \<open>The shuffle permutes\<close>

lemma length_swap: "length (swap i j xs) = length xs"
  by (simp add: swap_def)

lemma mset_swap_in_range:
  "i < length xs \<Longrightarrow> j < length xs \<Longrightarrow> mset (swap i j xs) = mset xs"
  unfolding swap_def by (simp add: mset_swap)

lemma mset_shuffle_steps:
  "k < length xs \<or> k = 0 \<Longrightarrow> mset (shuffle_steps r k xs) = mset xs"
proof (induction k arbitrary: xs)
  case 0
  then show ?case by simp
next
  case (Suc k)
  then have k: "Suc k < length xs" by simp
  have "r (Suc k) mod Suc (Suc k) < Suc (Suc k)" by simp
  with k have j: "r (Suc k) mod Suc (Suc k) < length xs" by linarith
  have "mset (shuffle_steps r k (swap (Suc k) (r (Suc k) mod Suc (Suc k)) xs))
        = mset (swap (Suc k) (r (Suc k) mod Suc (Suc k)) xs)"
    using k by (intro Suc.IH) (simp add: length_swap)
  then show ?case using k j by (simp add: mset_swap_in_range)
qed

lemma mset_shuffle: "mset (shuffle r xs) = mset xs"
  unfolding shuffle_def by (rule mset_shuffle_steps) (cases xs; simp)

lemma length_shuffle: "length (shuffle r xs) = length xs"
  using mset_shuffle [of r xs] by (metis size_mset)

lemma filter_shuffle: "length (filter P (shuffle r xs)) = length (filter P xs)"
proof -
  have "mset (filter P (shuffle r xs)) = mset (filter P xs)"
    by (simp add: mset_shuffle)
  then show ?thesis by (metis size_mset)
qed

lemma count_replicate_pairs:
  "length (filter (\<lambda>x. fst x = s \<and> snd x = c)
     (concat (map (\<lambda>c'. map (\<lambda>_. (s', c')) [0..<n]) C)))
   = (if s' = s then count_list C c * n else 0)"
  by (induction C) auto

lemma count_tile_types:
  "length (filter (\<lambda>x. fst x = s \<and> snd x = c)
     (concat (map (\<lambda>s'. concat (map (\<lambda>c'. map (\<lambda>_. (s', c')) [0..<n]) C)) S)))
   = count_list S s * count_list C c * n"
  by (induction S) (simp_all add: count_replicate_pairs add_mult_distrib)

lemma filter_enumerate_tiles:
  "length (filter (\<lambda>t. shape t = s \<and> color t = c)
      (map (\<lambda>(k, (s, c)). \<lparr>shape = s, color = c, tid = u k\<rparr>) (enumerate n xs)))
   = length (filter (\<lambda>x. fst x = s \<and> snd x = c) xs)"
  by (induction xs arbitrary: n) auto

lemma length_tile_types: "length tile_types = 1080"
  by (simp add: tile_types_def SHAPES_def COLORS_def TILES_PER_TYPE_def)

text \<open>
  Claim C3. Whatever the generator returns to the shuffle and whatever identifiers the
  tiles get, \<open>create_all_tiles\<close> returns 1080 tiles, and each of the 36 pairs of one of
  the 6 shapes and one of the 6 colors is the shape and color of exactly 30 of them.
\<close>

theorem create_all_tiles_census:
  "length (create_all_tiles u r) = 1080
   \<and> length SHAPES = 6 \<and> distinct SHAPES \<and> length COLORS = 6 \<and> distinct COLORS
   \<and> (\<forall>s \<in> set SHAPES. \<forall>c \<in> set COLORS.
         length (filter (\<lambda>t. shape t = s \<and> color t = c) (create_all_tiles u r)) = 30)"
proof -
  have len: "length (create_all_tiles u r) = 1080"
    by (simp add: create_all_tiles_def length_shuffle length_tile_types)
  have S: "length SHAPES = 6 \<and> distinct SHAPES" by (simp add: SHAPES_def)
  have C: "length COLORS = 6 \<and> distinct COLORS" by (simp add: COLORS_def)
  have "length (filter (\<lambda>t. shape t = s \<and> color t = c) (create_all_tiles u r)) = 30"
    if s: "s \<in> set SHAPES" and c: "c \<in> set COLORS" for s c
  proof -
    have "count_list SHAPES s = 1" "count_list COLORS c = 1"
      using s c by (auto simp: SHAPES_def COLORS_def)
    then show ?thesis
      unfolding create_all_tiles_def tile_types_def
      by (simp only: filter_shuffle filter_enumerate_tiles count_tile_types)
         (simp add: TILES_PER_TYPE_def)
  qed
  with len S C show ?thesis by blast
qed

text \<open>The census at one pair, for one generator.\<close>

theorem create_all_tiles_census_witness:
  "''clover'' \<in> set SHAPES \<and> ''blue'' \<in> set COLORS
   \<and> length (filter (\<lambda>t. shape t = ''clover'' \<and> color t = ''blue'')
        (create_all_tiles (\<lambda>k. ''t'' @ str_nat k) (\<lambda>i. 7 * i + 3))) = 30"
  using create_all_tiles_census [of "\<lambda>k. ''t'' @ str_nat k" "\<lambda>i. 7 * i + 3"]
  by (simp add: SHAPES_def COLORS_def)

section \<open>The placement validator\<close>

lemma board_dict_snoc:
  "board_dict (b @ [pt]) = (board_dict b)((row (position pt), col (position pt)) \<mapsto> pt)"
  by (simp add: board_dict_def)

lemma board_dict_occupants:
  "board_dict b (r, c) = (if occupants b r c = [] then None else Some (last (occupants b r c)))"
proof (induction b rule: rev_induct)
  case Nil
  show ?case by (simp add: board_dict_def occupants_def)
next
  case (snoc pt b)
  then show ?case by (simp add: board_dict_snoc occupants_def)
qed

lemma list_ex_occupied:
  "list_ex (\<lambda>pt. row (position pt) = r \<and> col (position pt) = c) b \<longleftrightarrow> occupants b r c \<noteq> []"
  by (auto simp: occupants_def list_ex_iff filter_empty_conv)

lemma validate_tile_placement_last:
  "validate_tile_placement t p b \<longleftrightarrow>
     occupants b (row p) (col p) = []
     \<and> (b = [] \<or> (\<exists>(r, c) \<in> set (adjacent p). occupants b r c \<noteq> []))
     \<and> (\<forall>(r, c) \<in> set (adjacent p).
           occupants b r c \<noteq> [] \<longrightarrow> matches t (tile (last (occupants b r c))))"
  unfolding validate_tile_placement_def get_neighbors_def list_ex_occupied
  by (simp add: board_dict_occupants adjacent_def matches_def Let_def) (auto simp: occupants_def)

lemma occupants_unique:
  "unique_positions b \<Longrightarrow> pt \<in> set (occupants b r c) \<Longrightarrow> occupants b r c = [pt]"
proof (induction b)
  case Nil
  then show ?case by (simp add: occupants_def)
next
  case (Cons x b)
  then show ?case
    by (auto simp: occupants_def unique_positions_def filter_empty_conv image_iff split: if_splits)
qed


lemma occupants_set: "set (occupants b r c) = {pt \<in> set b. at pt = (r, c)}"
  by (auto simp: occupants_def at_def)

lemma occupants_last_unique:
  assumes "unique_positions b" "pt \<in> set b" "at pt = (r, c)"
  shows "occupants b r c \<noteq> [] \<and> last (occupants b r c) = pt"
proof -
  have "pt \<in> set (occupants b r c)" using assms by (simp add: occupants_set)
  then have "occupants b r c = [pt]" using assms(1) by (rule occupants_unique [rotated])
  then show ?thesis by simp
qed

lemma occupants_nonempty: "occupants b r c \<noteq> [] \<longleftrightarrow> (\<exists>pt \<in> set b. at pt = (r, c))"
  using occupants_set [of b r c] by (metis (mono_tags, lifting) empty_Collect_eq set_empty)

text \<open>
  Claim C1. On a board with at most one tile per cell, \<open>validate_tile_placement\<close> is
  false when the cell is occupied, false when the board is not empty and none of the four
  cells next to it is occupied, false when some tile on one of those cells shares neither
  color nor shape with the candidate, and true otherwise. On any board the same holds with
  the tile of a neighbouring cell being the last one the board lists there (the one the
  dictionary of \<open>get_neighbors\<close> keeps). On the empty board every cell is accepted.
\<close>

theorem validate_tile_placement_rule:
  "(unique_positions b \<longrightarrow>
      (validate_tile_placement t p b \<longleftrightarrow>
         \<not> (\<exists>pt \<in> set b. at pt = (row p, col p))
         \<and> (b = [] \<or> (\<exists>pt \<in> set b. at pt \<in> set (adjacent p)))
         \<and> (\<forall>pt \<in> set b. at pt \<in> set (adjacent p) \<longrightarrow> matches t (tile pt))))
   \<and> (validate_tile_placement t p b \<longleftrightarrow>
         \<not> (\<exists>pt \<in> set b. at pt = (row p, col p))
         \<and> (b = [] \<or> (\<exists>pt \<in> set b. at pt \<in> set (adjacent p)))
         \<and> (\<forall>(r, c) \<in> set (adjacent p).
               occupants b r c \<noteq> [] \<longrightarrow> matches t (tile (last (occupants b r c)))))
   \<and> validate_tile_placement t p []"
proof -
  have general: "validate_tile_placement t p b \<longleftrightarrow>
         \<not> (\<exists>pt \<in> set b. at pt = (row p, col p))
         \<and> (b = [] \<or> (\<exists>pt \<in> set b. at pt \<in> set (adjacent p)))
         \<and> (\<forall>(r, c) \<in> set (adjacent p).
               occupants b r c \<noteq> [] \<longrightarrow> matches t (tile (last (occupants b r c))))"
  proof -
    have a: "occupants b (row p) (col p) = [] \<longleftrightarrow> \<not> (\<exists>pt \<in> set b. at pt = (row p, col p))"
      using occupants_nonempty [of b "row p" "col p"] by blast
    have b: "(\<exists>(r, c) \<in> set (adjacent p). occupants b r c \<noteq> [])
               \<longleftrightarrow> (\<exists>pt \<in> set b. at pt \<in> set (adjacent p))"
    proof
      assume "\<exists>(r, c) \<in> set (adjacent p). occupants b r c \<noteq> []"
      then obtain r c where rc: "(r, c) \<in> set (adjacent p)" "occupants b r c \<noteq> []" by blast
      then obtain pt where "pt \<in> set b" "at pt = (r, c)"
        unfolding occupants_nonempty by blast
      with rc(1) show "\<exists>pt \<in> set b. at pt \<in> set (adjacent p)"
        by (intro bexI [of _ pt]) simp_all
    next
      assume "\<exists>pt \<in> set b. at pt \<in> set (adjacent p)"
      then obtain pt where pt: "pt \<in> set b" "at pt \<in> set (adjacent p)" by blast
      obtain r c where rc: "at pt = (r, c)" by (cases "at pt")
      with pt have "occupants b r c \<noteq> []" unfolding occupants_nonempty by blast
      with pt rc show "\<exists>(r, c) \<in> set (adjacent p). occupants b r c \<noteq> []"
        by (intro bexI [of _ "(r, c)"]) simp_all
    qed
    show ?thesis by (simp only: validate_tile_placement_last a b)
  qed
  have unique: "(\<forall>(r, c) \<in> set (adjacent p).
               occupants b r c \<noteq> [] \<longrightarrow> matches t (tile (last (occupants b r c))))
      \<longleftrightarrow> (\<forall>pt \<in> set b. at pt \<in> set (adjacent p) \<longrightarrow> matches t (tile pt))"
    if u: "unique_positions b"
  proof
    assume L: "\<forall>(r, c) \<in> set (adjacent p).
               occupants b r c \<noteq> [] \<longrightarrow> matches t (tile (last (occupants b r c)))"
    show "\<forall>pt \<in> set b. at pt \<in> set (adjacent p) \<longrightarrow> matches t (tile pt)"
    proof (intro ballI impI)
      fix pt assume pt: "pt \<in> set b" "at pt \<in> set (adjacent p)"
      obtain r c where rc: "at pt = (r, c)" by (cases "at pt")
      from occupants_last_unique [OF u pt(1) rc] L pt(2) rc
      show "matches t (tile pt)" by auto
    qed
  next
    assume R: "\<forall>pt \<in> set b. at pt \<in> set (adjacent p) \<longrightarrow> matches t (tile pt)"
    show "\<forall>(r, c) \<in> set (adjacent p).
               occupants b r c \<noteq> [] \<longrightarrow> matches t (tile (last (occupants b r c)))"
    proof (clarify)
      fix r c assume rc: "(r, c) \<in> set (adjacent p)" "occupants b r c \<noteq> []"
      then have "last (occupants b r c) \<in> set (occupants b r c)" by simp
      then have "last (occupants b r c) \<in> set b" "at (last (occupants b r c)) = (r, c)"
        by (simp_all add: occupants_set)
      with R rc(1) show "matches t (tile (last (occupants b r c)))" by metis
    qed
  qed
  have empty: "validate_tile_placement t p []"
    by (simp add: validate_tile_placement_last occupants_def)
  from general unique empty show ?thesis by simp
qed


text \<open>
  The rule on the board with a red star at (0,0): a blue star is accepted at (1,0) and
  refused at (1,1).
\<close>

theorem validate_tile_placement_rule_witness:
  "unique_positions
     [\<lparr>tile = \<lparr>shape = ''star'', color = ''red'', tid = ''a''\<rparr>,
       position = \<lparr>row = 0, col = 0\<rparr>, placed_by = ''referee'', placed_turn = 0\<rparr>]
   \<and> validate_tile_placement \<lparr>shape = ''star'', color = ''blue'', tid = ''b''\<rparr> \<lparr>row = 1, col = 0\<rparr>
     [\<lparr>tile = \<lparr>shape = ''star'', color = ''red'', tid = ''a''\<rparr>,
       position = \<lparr>row = 0, col = 0\<rparr>, placed_by = ''referee'', placed_turn = 0\<rparr>]
   \<and> \<not> validate_tile_placement \<lparr>shape = ''star'', color = ''blue'', tid = ''b''\<rparr> \<lparr>row = 1, col = 1\<rparr>
     [\<lparr>tile = \<lparr>shape = ''star'', color = ''red'', tid = ''a''\<rparr>,
       position = \<lparr>row = 0, col = 0\<rparr>, placed_by = ''referee'', placed_turn = 0\<rparr>]"
  using validate_tile_placement_rule
          [of "[\<lparr>tile = \<lparr>shape = ''star'', color = ''red'', tid = ''a''\<rparr>,
                 position = \<lparr>row = 0, col = 0\<rparr>, placed_by = ''referee'', placed_turn = 0\<rparr>]"
              "\<lparr>shape = ''star'', color = ''blue'', tid = ''b''\<rparr>" "\<lparr>row = 1, col = 0\<rparr>"]
        validate_tile_placement_rule
          [of "[\<lparr>tile = \<lparr>shape = ''star'', color = ''red'', tid = ''a''\<rparr>,
                 position = \<lparr>row = 0, col = 0\<rparr>, placed_by = ''referee'', placed_turn = 0\<rparr>]"
              "\<lparr>shape = ''star'', color = ''blue'', tid = ''b''\<rparr>" "\<lparr>row = 1, col = 1\<rparr>"]
  by (simp add: unique_positions_def at_def adjacent_def matches_def)

section \<open>Scoring\<close>

lemma length_row_tiles:
  "length (row_tiles t p b) = Suc (length (filter (\<lambda>pt. row (position pt) = row p) b))"
  by (simp add: row_tiles_def)

lemma length_col_tiles:
  "length (col_tiles t p b) = Suc (length (filter (\<lambda>pt. col (position pt) = col p) b))"
  by (simp add: col_tiles_def)

lemma score_loop_sum:
  "score_loop sc placed b =
     sc + (\<Sum>(t, p) \<leftarrow> placed. int (length (row_tiles t p b)) + int (length (col_tiles t p b)))"
  by (induction sc placed b rule: score_loop.induct) simp_all

text \<open>
  Claim C4, as the code has it. For every list of placed tiles and every board,
  \<open>calculate_score\<close> returns the number of placed tiles plus, for each of them, the
  number of the board's tiles in its row and itself, plus the number of the board's tiles
  in its column and itself. The placed tile is counted in both tallies.
\<close>

theorem calculate_score_tally:
  "calculate_score placed b =
     int (length placed)
     + (\<Sum>(t, p) \<leftarrow> placed.
          (int (length (filter (\<lambda>pt. row (position pt) = row p) b)) + 1)
        + (int (length (filter (\<lambda>pt. col (position pt) = col p) b)) + 1))"
  unfolding calculate_score_def score_loop_sum
  by (simp add: length_row_tiles length_col_tiles)

text \<open>
  The tiles of one action never enter each other's tallies: two tiles placed in the same
  row of the empty board score 6, three each as when placed alone, and no batch on any
  board scores anything but the sum of the scores of its tiles taken alone.
\<close>

theorem calculate_score_same_action_counterexample:
  "calculate_score
     [(\<lparr>shape = ''star'', color = ''blue'', tid = ''a''\<rparr>, \<lparr>row = 0, col = 0\<rparr>),
      (\<lparr>shape = ''star'', color = ''red'', tid = ''b''\<rparr>, \<lparr>row = 0, col = 1\<rparr>)] [] = 6
   \<and> calculate_score [(\<lparr>shape = ''star'', color = ''blue'', tid = ''a''\<rparr>, \<lparr>row = 0, col = 0\<rparr>)] [] = 3
   \<and> calculate_score [(\<lparr>shape = ''star'', color = ''red'', tid = ''b''\<rparr>, \<lparr>row = 0, col = 1\<rparr>)] [] = 3
   \<and> \<not> (\<exists>placed b. calculate_score placed b \<noteq> (\<Sum>x \<leftarrow> placed. calculate_score [x] b))"
proof -
  have ex: "calculate_score
     [(\<lparr>shape = ''star'', color = ''blue'', tid = ''a''\<rparr>, \<lparr>row = 0, col = 0\<rparr>),
      (\<lparr>shape = ''star'', color = ''red'', tid = ''b''\<rparr>, \<lparr>row = 0, col = 1\<rparr>)] [] = 6"
    "calculate_score [(\<lparr>shape = ''star'', color = ''blue'', tid = ''a''\<rparr>, \<lparr>row = 0, col = 0\<rparr>)] [] = 3"
    "calculate_score [(\<lparr>shape = ''star'', color = ''red'', tid = ''b''\<rparr>, \<lparr>row = 0, col = 1\<rparr>)] [] = 3"
    by (simp_all add: calculate_score_def row_tiles_def col_tiles_def)
  have "calculate_score placed b = (\<Sum>x \<leftarrow> placed. calculate_score [x] b)" for placed b
    unfolding calculate_score_def score_loop_sum
    by (induction placed) (auto simp: score_loop_sum)
  with ex show ?thesis by blast
qed

section \<open>Conservation of tiles\<close>

lemma sum_hands_update:
  "k < length ps \<Longrightarrow>
     (\<Sum>p \<leftarrow> ps[k := q]. length (hand p)) + length (hand (ps ! k))
     = (\<Sum>p \<leftarrow> ps. length (hand p)) + length (hand q)"
proof (induction ps arbitrary: k)
  case Nil
  then show ?case by simp
next
  case (Cons p ps)
  then show ?case by (cases k) auto
qed

lemma find_in_hand: "find P h = Some x \<Longrightarrow> x \<in> set h"
  by (induction h) (auto split: if_splits)

lemma remove_from_hand_length:
  "remove_from_hand ts h = Some h' \<Longrightarrow> length h' + length ts = length h"
proof (induction ts arbitrary: h)
  case Nil
  then show ?case by simp
next
  case (Cons t ts)
  from Cons.prems obtain x where x: "find (\<lambda>x. shape x = shape t \<and> color x = color t) h = Some x"
    and rest: "remove_from_hand ts (remove1 x h) = Some h'"
    by (auto split: option.splits)
  from x have "x \<in> set h" by (rule find_in_hand)
  then have "length (remove1 x h) + 1 = length h"
    using length_pos_if_in_set [of x h] by (simp add: length_remove1)
  with Cons.IH [OF rest] show ?case by simp
qed

lemma py_index_less: "py_index xs i = Some k \<Longrightarrow> k < length xs"
  by (auto simp: py_index_def Let_def split: if_splits)

lemma next_turn_total: "next_turn gs = Inr gs' \<Longrightarrow> game_total gs' = game_total gs"
  by (auto simp: next_turn_def game_total_def Let_def split: list.splits if_splits)

lemma next_turn_fields:
  "next_turn gs = Inr gs' \<Longrightarrow>
     players gs' = players gs \<and> board gs' = board gs \<and> remaining_tiles gs' = remaining_tiles gs
     \<and> consecutive_passes gs' = consecutive_passes gs \<and> gid gs' = gid gs"
  by (auto simp: next_turn_def Let_def split: list.splits if_splits)

lemma do_pass_total: "game_total (do_pass gs) = game_total gs"
  by (simp add: do_pass_def game_total_def)

lemma do_exchange_total:
  assumes "k < length (players gs)"
  shows "game_total (do_exchange r gs k) = game_total gs"
proof -
  let ?cp = "players gs ! k"
  let ?pile = "shuffle r (remaining_tiles gs @ hand ?cp)"
  have len: "length ?pile = length (remaining_tiles gs) + length (hand ?cp)"
    by (simp add: length_shuffle)
  then have m: "min (length (hand ?cp)) (length ?pile) = length (hand ?cp)" by simp
  from sum_hands_update [OF assms, of "?cp\<lparr>hand := take (length (hand ?cp)) ?pile\<rparr>"] len
  show ?thesis
    unfolding do_exchange_def game_total_def Let_def m by simp
qed

lemma do_place_Inr:
  assumes "do_place gs k a = Inr gs'"
  obtains ts ps h where "tiles a = Some ts" "positions a = Some ps" "ts \<noteq> []" "ps \<noteq> []"
    "first_invalid 0 (zip ts ps) (board gs) = None"
    "remove_from_hand ts (hand (players gs ! k)) = Some h"
    "gs' = place_tiles gs k ts ps h"
  using assms unfolding do_place_def
  by (auto split: option.splits if_splits)

lemma place_tiles_shape:
  "players (place_tiles gs k ts ps h) =
     (players gs)[k := (players gs ! k)
        \<lparr>hand := h @ take (min (length ts) (length (remaining_tiles gs))) (remaining_tiles gs),
          score := score (players gs ! k)
            + calculate_score (zip ts ps)
                (take (length (board gs) + min (length ts) (length ps) - length ts) (board gs))
            + (if h @ take (min (length ts) (length (remaining_tiles gs))) (remaining_tiles gs) = []
               then 6 else 0)\<rparr>]"
  "board (place_tiles gs k ts ps h) =
     board gs @ placed_tiles_of (pid (players gs ! k)) (turn_number gs) (zip ts ps)"
  "remaining_tiles (place_tiles gs k ts ps h) =
     drop (min (length ts) (length (remaining_tiles gs))) (remaining_tiles gs)"
  "consecutive_passes (place_tiles gs k ts ps h) = 0"
  by (auto simp: place_tiles_def Let_def placed_tiles_of_def min_def)

lemma place_tiles_total:
  assumes "k < length (players gs)" "length h + length ts = length (hand (players gs ! k))"
    "length ts \<le> length ps"
  shows "game_total (place_tiles gs k ts ps h) = game_total gs"
proof -
  let ?d = "min (length ts) (length (remaining_tiles gs))"
  have b: "length (board (place_tiles gs k ts ps h)) = length (board gs) + length ts"
    using assms(3) by (simp add: place_tiles_shape placed_tiles_of_def)
  have r: "length (remaining_tiles (place_tiles gs k ts ps h)) + ?d = length (remaining_tiles gs)"
    by (simp add: place_tiles_shape)
  have p: "(\<Sum>p \<leftarrow> players (place_tiles gs k ts ps h). length (hand p)) + length (hand (players gs ! k))
      = (\<Sum>p \<leftarrow> players gs. length (hand p)) + (length h + ?d)"
    unfolding place_tiles_shape using sum_hands_update [OF assms(1)] by simp
  from b r p assms(2) show ?thesis unfolding game_total_def by linarith
qed

lemma do_place_total:
  assumes "do_place gs k a = Inr gs'" "k < length (players gs)" "tiles_covered a"
  shows "game_total gs' = game_total gs"
proof -
  from assms(1) obtain ts ps h where ts: "tiles a = Some ts" and ps: "positions a = Some ps"
    and h: "remove_from_hand ts (hand (players gs ! k)) = Some h"
    and gs': "gs' = place_tiles gs k ts ps h"
    by (rule do_place_Inr)
  from assms(3) ts ps have le: "length ts \<le> length ps" by (simp add: tiles_covered_def)
  from remove_from_hand_length [OF h] assms(2) le show ?thesis
    unfolding gs' by (intro place_tiles_total)
qed

lemma apply_action_total:
  assumes "apply_action r gs a = Inr gs'" "tiles_covered a"
  shows "game_total gs' = game_total gs"
proof -
  from assms(1) obtain k mid where k: "py_index (players gs) (current_player_index gs) = Some k"
    and mid: "(case action_type a of PASS \<Rightarrow> Inr (do_pass gs)
                | EXCHANGE \<Rightarrow> Inr (do_exchange r gs k) | PLACE \<Rightarrow> do_place gs k a) = Inr mid"
    and nt: "next_turn mid = Inr gs'"
    by (auto simp: apply_action_def split: if_splits option.splits sum.splits)
  from k have kl: "k < length (players gs)" by (rule py_index_less)
  have "game_total mid = game_total gs"
    using mid kl assms(2)
    by (cases "action_type a") (auto simp: do_pass_total do_exchange_total do_place_total)
  with next_turn_total [OF nt] show ?thesis by simp
qed


lemma deal_initial_hands_total:
  "deal_initial_hands ps pile = (ps', pile') \<Longrightarrow>
     (\<Sum>p \<leftarrow> ps'. length (hand p)) + length pile' = length pile
     \<and> length pile' = length pile - INITIAL_HAND_SIZE * length ps"
proof (induction ps arbitrary: pile ps' pile')
  case Nil
  then show ?case by simp
next
  case (Cons p ps)
  obtain qs rest where d: "deal_initial_hands ps (drop INITIAL_HAND_SIZE pile) = (qs, rest)"
    by (cases "deal_initial_hands ps (drop INITIAL_HAND_SIZE pile)")
  with Cons.prems have ps': "ps' = p\<lparr>hand := take INITIAL_HAND_SIZE pile\<rparr> # qs" and pile': "pile' = rest"
    by simp_all
  from Cons.IH [OF d]
  have 1: "(\<Sum>p \<leftarrow> qs. length (hand p)) + length rest = length pile - INITIAL_HAND_SIZE"
    and 2: "length rest = length pile - INITIAL_HAND_SIZE - INITIAL_HAND_SIZE * length ps"
    by simp_all
  have 3: "(\<Sum>p \<leftarrow> ps'. length (hand p))
      = min (length pile) INITIAL_HAND_SIZE + (\<Sum>p \<leftarrow> qs. length (hand p))"
    unfolding ps' by simp
  have 4: "INITIAL_HAND_SIZE * length (p # ps) = INITIAL_HAND_SIZE + INITIAL_HAND_SIZE * length ps"
    by simp
  from 1 2 show ?case unfolding 3 4 pile' by linarith
qed

lemma place_initial_tile_total: "game_total (place_initial_tile gs) = game_total gs"
  by (simp add: place_initial_tile_def game_total_def split: list.splits)

lemma length_create_all_tiles: "length (create_all_tiles u r) = 1080"
  by (simp add: create_all_tiles_def length_shuffle length_tile_types)

lemma length_initial_players:
  "length (initial_players env request) = 1 + nat (num_ai_players request)"
  by (simp add: initial_players_def)

lemma initial_state_total: "game_total (initial_state env request) = 1080"
proof -
  obtain ps pile where d: "deal_initial_hands (initial_players env request)
      (create_all_tiles (tile_uuid env) (draws env)) = (ps, pile)"
    by (cases "deal_initial_hands (initial_players env request)
      (create_all_tiles (tile_uuid env) (draws env))")
  from deal_initial_hands_total [OF d]
  have "(\<Sum>p \<leftarrow> ps. length (hand p)) + length pile = 1080"
    by (simp add: length_create_all_tiles)
  then show ?thesis
    unfolding initial_state_def Let_def
    by (auto simp: d new_game_state_def game_total_def place_initial_tile_def split: list.splits)
qed

lemma initial_state_board:
  "length (board (initial_state env request))
     = (if 1 + nat (num_ai_players request) < 180 then 1 else 0)"
proof -
  obtain ps pile where d: "deal_initial_hands (initial_players env request)
      (create_all_tiles (tile_uuid env) (draws env)) = (ps, pile)"
    by (cases "deal_initial_hands (initial_players env request)
      (create_all_tiles (tile_uuid env) (draws env))")
  from deal_initial_hands_total [OF d]
  have "length pile = 1080 - 6 * (1 + nat (num_ai_players request))"
    by (simp add: length_create_all_tiles length_initial_players INITIAL_HAND_SIZE_def)
  then have "pile = [] \<longleftrightarrow> \<not> 1 + nat (num_ai_players request) < 180"
    by (cases pile) auto
  then show ?thesis
    unfolding initial_state_def Let_def
    by (auto simp: d new_game_state_def place_initial_tile_def split: list.splits)
qed

lemma reachable_by_total: "reachable_by tiles_covered gs \<Longrightarrow> game_total gs = 1080"
  by (induction rule: reachable_by.induct) (simp_all add: initial_state_total apply_action_total)

section \<open>The example games\<close>

lemma swap_same: "swap i i xs = xs"
  by (simp add: swap_def)

lemma shuffle_steps_id: "shuffle_steps (\<lambda>i. i) k xs = xs"
  by (induction k) (simp_all add: swap_same)

lemma shuffle_id: "shuffle (\<lambda>i. i) xs = xs"
  by (simp add: shuffle_def shuffle_steps_id)

lemma take_enumerate: "take k (enumerate n xs) = enumerate n (take k xs)"
proof (induction xs arbitrary: n k)
  case Nil
  show ?case by simp
next
  case (Cons x xs)
  then show ?case by (cases k) simp_all
qed

lemma take_tile_types: "take 7 tile_types = replicate 7 (''star'', ''red'')"
  by (simp add: tile_types_def SHAPES_def COLORS_def TILES_PER_TYPE_def map_replicate_const)

lemma take_all_tiles:
  "take 7 (create_all_tiles (tile_uuid demo_env) (draws demo_env))
     = [star_red ''t0'', star_red ''t1'', star_red ''t2'', star_red ''t3'',
        star_red ''t4'', star_red ''t5'', star_red ''t6'']"
proof -
  have "map (\<lambda>(k, (s, c)). \<lparr>shape = s, color = c, tid = ''t'' @ str_nat k\<rparr>)
          (enumerate 0 (replicate 7 (''star'', ''red'')))
        = [star_red ''t0'', star_red ''t1'', star_red ''t2'', star_red ''t3'',
           star_red ''t4'', star_red ''t5'', star_red ''t6'']"
    by code_simp
  then show ?thesis
    unfolding create_all_tiles_def
    by (simp add: demo_env_def shuffle_id take_map take_enumerate take_tile_types)
qed

lemma demo_initial:
  "initial_state demo_env demo_request
     = demo_start (drop 7 (create_all_tiles (tile_uuid demo_env) (draws demo_env)))"
proof -
  let ?T = "create_all_tiles (tile_uuid demo_env) (draws demo_env)"
  have T: "?T = [star_red ''t0'', star_red ''t1'', star_red ''t2'', star_red ''t3'',
        star_red ''t4'', star_red ''t5'', star_red ''t6''] @ drop 7 ?T"
    using append_take_drop_id [of 7 ?T] unfolding take_all_tiles by simp
  have p: "initial_players demo_env demo_request
     = [\<lparr>pid = ''p0'', name = ''Ann'', player_type = HUMAN, hand = [], score = 0, is_active = True\<rparr>]"
    by (simp add: initial_players_def demo_env_def demo_request_def new_player_def)
  have d: "deal_initial_hands (initial_players demo_env demo_request) ?T
     = ([\<lparr>pid = ''p0'', name = ''Ann'', player_type = HUMAN,
          hand = [star_red ''t0'', star_red ''t1'', star_red ''t2'',
                  star_red ''t3'', star_red ''t4'', star_red ''t5''],
          score = 0, is_active = True\<rparr>], star_red ''t6'' # drop 7 ?T)"
    unfolding p by (subst (1 2) T) (simp add: INITIAL_HAND_SIZE_def)
  show ?thesis
    unfolding initial_state_def Let_def
    by (simp add: d new_game_state_def place_initial_tile_def demo_start_def) (simp add: demo_env_def)
qed

lemmas demo_eval =
  apply_action_def py_index_def do_place_def validate_tile_placement_def get_neighbors_def
  board_dict_def place_tiles_def placed_tiles_of_def calculate_score_def row_tiles_def
  col_tiles_def temp_tile_def next_turn_def demo_start_def star_red_def Let_def
  do_pass_def do_exchange_def

lemma demo_twice:
  "map_sum id (\<lambda>gs. map at (board gs))
     (apply_action r (demo_start pile) place_twice_on_a_cell) = Inr [(0, 0), (0, 1), (0, 1)]"
  by (simp add: demo_eval place_twice_on_a_cell_def at_def)

lemma demo_mismatch_board:
  "map_sum id (\<lambda>gs. (map (\<lambda>pt. (tid (tile pt), at pt)) (board gs),
                      take 4 (map tid (hand (players gs ! 0))),
                      length (hand (players gs ! 0)) - 4 + length (remaining_tiles gs),
                      score (players gs ! 0)))
     (apply_action r (demo_start pile) place_two_tiles_one_position)
   = Inr ([(''t6'', (0, 0)), (''t0'', (0, 1))], [''t2'', ''t3'', ''t4'', ''t5''], length pile, 3)"
  by (simp add: demo_eval place_two_tiles_one_position_def at_def)

lemma demo_mismatch_total:
  "2 \<le> length pile \<Longrightarrow>
   map_sum id game_total (apply_action r (demo_start pile) place_two_tiles_one_position)
   = Inr (length pile + 6)"
  by (simp add: demo_eval place_two_tiles_one_position_def game_total_def)

text \<open>
  Claim C9 says that no two tiles of the board ever share a cell. In the game that
  \<open>create_game\<close> makes for one player under the identity shuffle, the first action
  places two tiles of the hand on the cell (0,1): both are validated against the board
  before the action, the action succeeds, and the board then lists (0,1) twice.
\<close>

theorem place_twice_on_a_cell_accepted:
  "map_sum id (\<lambda>gs. map at (board gs))
     (apply_action (\<lambda>i. i) (initial_state demo_env demo_request) place_twice_on_a_cell)
   = Inr [(0, 0), (0, 1), (0, 1)]"
  unfolding demo_initial by (rule demo_twice)

text \<open>
  Claim C8 says that a place action with sequences of different lengths is rejected with
  \<open>MissingActionPayload\<close>. In the same game, an action with two tiles and one position
  succeeds. The first tile goes on the board; the hand keeps its other four tiles, and the
  tiles it draws and the pile are the 1073 of the pile before, so the second tile is
  nowhere; the score is 3, counted on a board cut by two tiles, the referee's among them.
\<close>

theorem place_two_tiles_one_position_accepted:
  "map_sum id (\<lambda>gs. (map (\<lambda>pt. (tid (tile pt), at pt)) (board gs),
                      take 4 (map tid (hand (players gs ! 0))),
                      length (hand (players gs ! 0)) - 4 + length (remaining_tiles gs),
                      score (players gs ! 0)))
     (apply_action (\<lambda>i. i) (initial_state demo_env demo_request) place_two_tiles_one_position)
   = Inr ([(''t6'', (0, 0)), (''t0'', (0, 1))], [''t2'', ''t3'', ''t4'', ''t5''], 1073, 3)"
proof -
  have "length (drop 7 (create_all_tiles (tile_uuid demo_env) (draws demo_env))) = 1073"
    by (simp add: length_create_all_tiles)
  then show ?thesis
    unfolding demo_initial by (simp add: demo_mismatch_board)
qed

text \<open>
  Claim C2 as worded fails twice: the action above takes the game from 1080 tiles to
  1079, and a game created for 180 players has dealt the whole pile, so that its board
  is empty.
\<close>

theorem tile_count_counterexample:
  "game_total (initial_state demo_env demo_request) = 1080
   \<and> map_sum id game_total
       (apply_action (\<lambda>i. i) (initial_state demo_env demo_request) place_two_tiles_one_position)
     = Inr 1079
   \<and> board (initial_state demo_env \<lparr>player_name = ''Ann'', num_ai_players = 179\<rparr>) = []"
proof -
  have len: "length (drop 7 (create_all_tiles (tile_uuid demo_env) (draws demo_env))) = 1073"
    by (simp add: length_create_all_tiles)
  have "map_sum id game_total
       (apply_action (\<lambda>i. i) (initial_state demo_env demo_request) place_two_tiles_one_position)
     = Inr 1079"
    unfolding demo_initial using len by (simp add: demo_mismatch_total)
  moreover have "board (initial_state demo_env \<lparr>player_name = ''Ann'', num_ai_players = 179\<rparr>) = []"
    using initial_state_board [of demo_env "\<lparr>player_name = ''Ann'', num_ai_players = 179\<rparr>"]
    by simp
  ultimately show ?thesis by (simp add: initial_state_total)
qed

section \<open>End of the game\<close>

lemma apply_action_Inr:
  assumes "apply_action r gs a = Inr gs'"
  obtains k mid where "status gs = IN_PROGRESS"
    "py_index (players gs) (current_player_index gs) = Some k"
    "player_id a = pid (players gs ! k)"
    "(case action_type a of PASS \<Rightarrow> Inr (do_pass gs)
        | EXCHANGE \<Rightarrow> Inr (do_exchange r gs k) | PLACE \<Rightarrow> do_place gs k a) = Inr mid"
    "next_turn mid = Inr gs'"
  using assms unfolding apply_action_def
  by (auto split: if_splits option.splits sum.splits)

lemma max_by_score_first:
  "(max_by_score best ps = best \<and> (\<forall>q \<in> set ps. score q \<le> score best))
   \<or> (\<exists>i < length ps. max_by_score best ps = ps ! i \<and> score best < score (ps ! i)
         \<and> (\<forall>j < length ps. score (ps ! j) \<le> score (ps ! i))
         \<and> (\<forall>j < i. score (ps ! j) < score (ps ! i)))"
proof (induction ps arbitrary: best)
  case Nil
  show ?case by simp
next
  case (Cons p ps)
  let ?b = "if score best < score p then p else best"
  from Cons.IH [of ?b] consider
    (keep) "max_by_score ?b ps = ?b" "\<forall>q \<in> set ps. score q \<le> score ?b"
  | (later) i where "i < length ps" "max_by_score ?b ps = ps ! i" "score ?b < score (ps ! i)"
      "\<forall>j < length ps. score (ps ! j) \<le> score (ps ! i)" "\<forall>j < i. score (ps ! j) < score (ps ! i)"
    by blast
  then show ?case
  proof cases
    case keep
    show ?thesis
    proof (cases "score best < score p")
      case True
      with keep have "max_by_score best (p # ps) = (p # ps) ! 0" "score best < score ((p # ps) ! 0)"
        "\<forall>j < length (p # ps). score ((p # ps) ! j) \<le> score ((p # ps) ! 0)"
        by (auto simp: nth_Cons all_set_conv_all_nth split: nat.splits)
      then show ?thesis by (intro disjI2 exI [of _ 0]) simp
    next
      case False
      with keep show ?thesis by (auto simp: all_set_conv_all_nth)
    qed
  next
    case later
    have b: "score best \<le> score ?b" "score p \<le> score ?b" by auto
    with later have "Suc i < length (p # ps)" "max_by_score best (p # ps) = (p # ps) ! Suc i"
      "score best < score ((p # ps) ! Suc i)"
      "\<forall>j < length (p # ps). score ((p # ps) ! j) \<le> score ((p # ps) ! Suc i)"
      "\<forall>j < Suc i. score ((p # ps) ! j) < score ((p # ps) ! Suc i)"
      by (auto simp: nth_Cons split: nat.splits)
    then show ?thesis by (intro disjI2 exI [of _ "Suc i"]) blast
  qed
qed

lemma max_by_score_winner:
  "\<exists>i < length (p # ps). max_by_score p ps = (p # ps) ! i
      \<and> (\<forall>j < length (p # ps). score ((p # ps) ! j) \<le> score ((p # ps) ! i))
      \<and> (\<forall>j < i. score ((p # ps) ! j) < score ((p # ps) ! i))"
proof -
  from max_by_score_first [of p ps] consider
    (keep) "max_by_score p ps = p" "\<forall>q \<in> set ps. score q \<le> score p"
  | (later) i where "i < length ps" "max_by_score p ps = ps ! i" "score p < score (ps ! i)"
      "\<forall>j < length ps. score (ps ! j) \<le> score (ps ! i)" "\<forall>j < i. score (ps ! j) < score (ps ! i)"
    by blast
  then show ?thesis
  proof cases
    case keep
    then have "max_by_score p ps = (p # ps) ! 0"
      "\<forall>j < length (p # ps). score ((p # ps) ! j) \<le> score ((p # ps) ! 0)"
      by (auto simp: nth_Cons all_set_conv_all_nth split: nat.splits)
    then show ?thesis by (intro exI [of _ 0]) simp
  next
    case later
    then have "Suc i < length (p # ps)" "max_by_score p ps = (p # ps) ! Suc i"
      "\<forall>j < length (p # ps). score ((p # ps) ! j) \<le> score ((p # ps) ! Suc i)"
      "\<forall>j < Suc i. score ((p # ps) ! j) < score ((p # ps) ! Suc i)"
      by (auto simp: nth_Cons split: nat.splits)
    then show ?thesis by (intro exI [of _ "Suc i"]) blast
  qed
qed

text \<open>
  Claim C5. After a successful action, if the consecutive passes have reached the number
  of players, the game is finished and the winner is the first player of the list whose
  score no other player exceeds: every player before that one has a strictly smaller score.
\<close>

theorem all_passed_ends_game:
  assumes "apply_action r gs a = Inr gs'"
    and "int (length (players gs')) \<le> consecutive_passes gs'"
  shows "status gs' = FINISHED
    \<and> (\<exists>i < length (players gs').
          winner_id gs' = Some (pid (players gs' ! i))
          \<and> (\<forall>j < length (players gs'). score (players gs' ! j) \<le> score (players gs' ! i))
          \<and> (\<forall>j < i. score (players gs' ! j) < score (players gs' ! i)))"
proof -
  from assms(1) obtain mid where nt: "next_turn mid = Inr gs'" by (rule apply_action_Inr)
  from nt obtain p ps where ps: "players mid = p # ps"
    by (cases "players mid") (simp_all add: next_turn_def)
  from next_turn_fields [OF nt] have same: "players gs' = players mid"
    "consecutive_passes gs' = consecutive_passes mid" by simp_all
  with assms(2) have all: "int (length (players mid)) \<le> consecutive_passes mid" by simp
  from nt ps all have gs': "status gs' = FINISHED" "winner_id gs' = Some (pid (max_by_score p ps))"
    by (auto simp: next_turn_def Let_def)
  from max_by_score_winner [of p ps] show ?thesis
    unfolding gs' same ps by metis
qed

lemma next_turn_after_reset:
  assumes "next_turn mid = Inr gs'" "consecutive_passes mid = 0"
  shows "status gs' = status mid \<and> winner_id gs' = winner_id mid \<and> players gs' = players mid
     \<and> remaining_tiles gs' = remaining_tiles mid \<and> board gs' = board mid"
  using assms by (auto simp: next_turn_def Let_def split: list.splits if_splits)

lemma place_tiles_emptied:
  assumes "k < length (players gs)" "hand (players (place_tiles gs k ts ps h) ! k) = []"
  shows "status (place_tiles gs k ts ps h) = FINISHED"
    "winner_id (place_tiles gs k ts ps h) = Some (pid (players gs ! k))"
    "pid (players (place_tiles gs k ts ps h) ! k) = pid (players gs ! k)"
    "score (players (place_tiles gs k ts ps h) ! k) =
       score (players gs ! k)
       + calculate_score (zip ts ps)
           (take (length (board gs) + min (length ts) (length ps) - length ts) (board gs))
       + 6"
proof -
  from assms have e: "h @ take (min (length ts) (length (remaining_tiles gs))) (remaining_tiles gs) = []"
    by (simp add: place_tiles_shape)
  then show "status (place_tiles gs k ts ps h) = FINISHED"
    "winner_id (place_tiles gs k ts ps h) = Some (pid (players gs ! k))"
    by (simp_all add: place_tiles_def Let_def)
  from assms(1) e show "pid (players (place_tiles gs k ts ps h) ! k) = pid (players gs ! k)"
    "score (players (place_tiles gs k ts ps h) ! k) =
       score (players gs ! k)
       + calculate_score (zip ts ps)
           (take (length (board gs) + min (length ts) (length ps) - length ts) (board gs))
       + 6"
    unfolding place_tiles_shape by simp_all
qed

text \<open>
  Claim C6. After a successful place action that leaves the acting player's hand empty
  once the replacement tiles are drawn, the game is finished, the winner is that player,
  and the player's score is the old score plus the score of the placement plus 6.
\<close>

theorem emptied_hand_ends_game:
  assumes "apply_action r gs a = Inr gs'" and "action_type a = PLACE"
    and "py_index (players gs) (current_player_index gs) = Some k"
    and "tiles a = Some ts" and "positions a = Some ps"
    and "hand (players gs' ! k) = []"
  shows "status gs' = FINISHED
    \<and> winner_id gs' = Some (pid (players gs ! k))
    \<and> pid (players gs' ! k) = pid (players gs ! k)
    \<and> score (players gs' ! k) =
        score (players gs ! k)
        + calculate_score (zip ts ps)
            (take (length (board gs) + min (length ts) (length ps) - length ts) (board gs))
        + 6
    \<and> (length ts = length ps \<longrightarrow>
        score (players gs' ! k) = score (players gs ! k) + calculate_score (zip ts ps) (board gs) + 6)"
proof -
  from assms(1) obtain k' mid where
    k': "py_index (players gs) (current_player_index gs) = Some k'"
    and mid: "(case action_type a of PASS \<Rightarrow> Inr (do_pass gs)
        | EXCHANGE \<Rightarrow> Inr (do_exchange r gs k') | PLACE \<Rightarrow> do_place gs k' a) = Inr mid"
    and nt: "next_turn mid = Inr gs'"
    by (rule apply_action_Inr)
  from k' assms(3) have [simp]: "k' = k" by simp
  from assms(3) have kl: "k < length (players gs)" by (rule py_index_less)
  from mid assms(2) have "do_place gs k a = Inr mid" by simp
  then obtain h where m: "mid = place_tiles gs k ts ps h"
    using assms(4,5) by (auto elim!: do_place_Inr)
  have z: "consecutive_passes mid = 0" unfolding m by (simp add: place_tiles_shape)
  from next_turn_after_reset [OF nt z] have same: "status gs' = status mid"
    "winner_id gs' = winner_id mid" "players gs' = players mid" by simp_all
  from assms(6) have e: "hand (players (place_tiles gs k ts ps h) ! k) = []"
    unfolding same m .
  from place_tiles_emptied [OF kl e] show ?thesis unfolding same m by simp
qed

lemma do_exchange_hand:
  assumes "k < length (players gs)"
  shows "length (hand (players (do_exchange r gs k) ! k)) = length (hand (players gs ! k))"
    "length (remaining_tiles (do_exchange r gs k)) = length (remaining_tiles gs)"
    "consecutive_passes (do_exchange r gs k) = 0"
  using assms by (simp_all add: do_exchange_def Let_def length_shuffle)

text \<open>
  Claim C10. A successful exchange leaves the acting player with as many tiles as before:
  the shuffled pile holds the old pile and the whole hand, so the minimum taken at line 252
  is the old hand size, and the pile keeps its size too.
\<close>

theorem exchange_keeps_hand_size:
  assumes "apply_action r gs a = Inr gs'" and "action_type a = EXCHANGE"
    and "py_index (players gs) (current_player_index gs) = Some k"
  shows "length (hand (players gs' ! k)) = length (hand (players gs ! k))
    \<and> min (length (hand (players gs ! k)))
          (length (shuffle r (remaining_tiles gs @ hand (players gs ! k))))
        = length (hand (players gs ! k))
    \<and> length (remaining_tiles gs') = length (remaining_tiles gs)"
proof -
  from assms(1) obtain k' mid where
    k': "py_index (players gs) (current_player_index gs) = Some k'"
    and mid: "(case action_type a of PASS \<Rightarrow> Inr (do_pass gs)
        | EXCHANGE \<Rightarrow> Inr (do_exchange r gs k') | PLACE \<Rightarrow> do_place gs k' a) = Inr mid"
    and nt: "next_turn mid = Inr gs'"
    by (rule apply_action_Inr)
  from k' assms(3) have [simp]: "k' = k" by simp
  from assms(3) have kl: "k < length (players gs)" by (rule py_index_less)
  from mid assms(2) have m: "mid = do_exchange r gs k" by simp
  from next_turn_fields [OF nt] have same: "players gs' = players mid"
    "remaining_tiles gs' = remaining_tiles mid" by simp_all
  show ?thesis unfolding same m using do_exchange_hand [OF kl, of r]
    by (simp add: length_shuffle)
qed

text \<open>
  Claim C7. A request that fails, with whatever error, leaves the store as it was; after
  a failure with \<open>TileNotInHand\<close> the stored game, and so the player's hand, is the
  one that was read; and an action of a player other than the current one of a game in
  progress fails with \<open>OutOfTurn\<close>, the store unchanged.
\<close>

theorem failed_action_changes_nothing:
  "(fst (perform_action r db request) = Inl e \<longrightarrow> snd (perform_action r db request) = db)
   \<and> (find_one (game_id request) db = Some gs
        \<and> fst (perform_action r db request) = Inl TileNotInHand
      \<longrightarrow> find_one (game_id request) (snd (perform_action r db request)) = Some gs)
   \<and> (find_one (game_id request) db = Some gs \<and> status gs = IN_PROGRESS
        \<and> py_index (players gs) (current_player_index gs) = Some k
        \<and> player_id (action request) \<noteq> pid (players gs ! k)
      \<longrightarrow> perform_action r db request = (Inl OutOfTurn, db))"
  by (auto simp: perform_action_def apply_action_def split: option.splits sum.splits)

section \<open>The rules at work\<close>

lemmas demo_game_eval =
  apply_action_def py_index_def do_place_def validate_tile_placement_def get_neighbors_def
  board_dict_def place_tiles_def placed_tiles_of_def calculate_score_def row_tiles_def
  col_tiles_def temp_tile_def next_turn_def demo_game_def demo_action_def star_red_def Let_def
  do_pass_def do_exchange_def shuffle_id

text \<open>
  Two players with 12 points each, one pass already made: the second player's pass ends the
  game and the first player wins the tie.
\<close>

theorem all_passed_ends_game_witness:
  "apply_action (\<lambda>i. i) demo_game (demo_action PASS ''p1'' [])
     = Inr (demo_game\<lparr>current_player_index := 0, turn_number := 8, consecutive_passes := 2,
                     status := FINISHED, winner_id := Some ''p0''\<rparr>)
   \<and> int (length (players demo_game)) \<le> 2
   \<and> score (players demo_game ! 0) = score (players demo_game ! 1)"
proof -
  let ?R = "demo_game\<lparr>current_player_index := 0, turn_number := 8, consecutive_passes := 2,
                     status := FINISHED, winner_id := Some ''p0''\<rparr>"
  have step: "apply_action (\<lambda>i. i) demo_game (demo_action PASS ''p1'' []) = Inr ?R"
    by (simp add: demo_game_eval)
  have all: "int (length (players ?R)) \<le> consecutive_passes ?R"
    by (simp add: demo_game_def)
  from all_passed_ends_game [OF step all] have "status ?R = FINISHED" by blast
  with step show ?thesis by (simp add: demo_game_def)
qed

text \<open>
  The first player places the only tile of the hand next to the referee's tile while the
  pile is empty: 12 + 4 + 6 points, and the game is over.
\<close>

theorem emptied_hand_ends_game_witness:
  "map_sum id (\<lambda>gs. (hand (players gs ! 0), score (players gs ! 0), status gs, winner_id gs))
     (apply_action (\<lambda>i. i) (demo_game\<lparr>current_player_index := 0, remaining_tiles := []\<rparr>)
        (demo_action PLACE ''p0''
           [(\<lparr>shape = ''circle'', color = ''red'', tid = ''a1''\<rparr>, \<lparr>row = 0, col = 1\<rparr>)]))
   = Inr ([], 22, FINISHED, Some ''p0'')"
proof -
  let ?g = "demo_game\<lparr>current_player_index := 0, remaining_tiles := []\<rparr>"
  let ?a = "demo_action PLACE ''p0''
           [(\<lparr>shape = ''circle'', color = ''red'', tid = ''a1''\<rparr>, \<lparr>row = 0, col = 1\<rparr>)]"
  obtain gs' where step: "apply_action (\<lambda>i. i) ?g ?a = Inr gs'"
    and empty: "hand (players gs' ! 0) = []"
    by (simp add: demo_game_eval)
  have k: "py_index (players ?g) (current_player_index ?g) = Some 0"
    by (simp add: demo_game_def py_index_def)
  have a: "action_type ?a = PLACE"
    "tiles ?a = Some [\<lparr>shape = ''circle'', color = ''red'', tid = ''a1''\<rparr>]"
    "positions ?a = Some [\<lparr>row = 0, col = 1\<rparr>]"
    by (simp_all add: demo_action_def)
  from emptied_hand_ends_game [OF step a(1) k a(2,3) empty]
  have "status gs' = FINISHED" "winner_id gs' = Some ''p0''" "score (players gs' ! 0) = 22"
    by (simp_all add: demo_game_def calculate_score_def row_tiles_def col_tiles_def star_red_def)
  with step empty show ?thesis by simp
qed

text \<open>
  The second player exchanges a hand of two tiles against a pile of one.
\<close>

theorem exchange_keeps_hand_size_witness:
  "map_sum id (\<lambda>gs. (map tid (hand (players gs ! 1)), map tid (remaining_tiles gs)))
     (apply_action (\<lambda>i. i) demo_game (demo_action EXCHANGE ''p1'' []))
   = Inr ([''r1'', ''b1''], [''b2''])
   \<and> length (hand (players demo_game ! 1)) = 2"
proof -
  obtain gs' where step: "apply_action (\<lambda>i. i) demo_game (demo_action EXCHANGE ''p1'' []) = Inr gs'"
    and h: "map tid (hand (players gs' ! 1)) = [''r1'', ''b1'']"
           "map tid (remaining_tiles gs') = [''b2'']"
    by (simp add: demo_game_eval)
  have k: "py_index (players demo_game) (current_player_index demo_game) = Some 1"
    by (simp add: demo_game_def py_index_def)
  have a: "action_type (demo_action EXCHANGE ''p1'' []) = EXCHANGE"
    by (simp add: demo_action_def)
  from exchange_keeps_hand_size [OF step a k]
  have "length (hand (players gs' ! 1)) = length (hand (players demo_game ! 1))" by blast
  with step h show ?thesis by (simp add: demo_game_def)
qed

text \<open>
  A placement whose second tile is not in the hand (the first one is), and a pass out of
  turn.
\<close>

theorem failed_action_changes_nothing_witness:
  "perform_action (\<lambda>i. i) [demo_game]
     \<lparr>game_id = ''g2'',
       action = demo_action PLACE ''p1''
         [(\<lparr>shape = ''circle'', color = ''red'', tid = ''b1''\<rparr>, \<lparr>row = 0, col = 1\<rparr>),
          (\<lparr>shape = ''star'', color = ''purple'', tid = ''zz''\<rparr>, \<lparr>row = 1, col = 0\<rparr>)]\<rparr>
     = (Inl TileNotInHand, [demo_game])
   \<and> perform_action (\<lambda>i. i) [demo_game]
       \<lparr>game_id = ''g2'', action = demo_action PASS ''p0'' []\<rparr>
     = (Inl OutOfTurn, [demo_game])"
proof -
  let ?r1 = "\<lparr>game_id = ''g2'',
       action = demo_action PLACE ''p1''
         [(\<lparr>shape = ''circle'', color = ''red'', tid = ''b1''\<rparr>, \<lparr>row = 0, col = 1\<rparr>),
          (\<lparr>shape = ''star'', color = ''purple'', tid = ''zz''\<rparr>, \<lparr>row = 1, col = 0\<rparr>)]\<rparr>"
  let ?r2 = "\<lparr>game_id = ''g2'', action = demo_action PASS ''p0'' []\<rparr>"
  have e: "fst (perform_action (\<lambda>i. i) [demo_game] ?r1) = Inl TileNotInHand"
    by (simp add: perform_action_def find_one_def demo_game_eval)
  have f: "find_one (game_id ?r2) [demo_game] = Some demo_game" "status demo_game = IN_PROGRESS"
    "py_index (players demo_game) (current_player_index demo_game) = Some 1"
    "player_id (action ?r2) \<noteq> pid (players demo_game ! 1)"
    by (simp_all add: find_one_def demo_game_def py_index_def demo_action_def)
  from failed_action_changes_nothing [of "\<lambda>i. i" "[demo_game]" ?r1 TileNotInHand] e
  have "snd (perform_action (\<lambda>i. i) [demo_game] ?r1) = [demo_game]" by blast
  with e have 1: "perform_action (\<lambda>i. i) [demo_game] ?r1 = (Inl TileNotInHand, [demo_game])"
    by (metis prod.collapse)
  from failed_action_changes_nothing [of "\<lambda>i. i" "[demo_game]" ?r2 OutOfTurn demo_game 1] f
  have 2: "perform_action (\<lambda>i. i) [demo_game] ?r2 = (Inl OutOfTurn, [demo_game])" by blast
  from 1 2 show ?thesis by simp
qed

lemma demo_place_one:
  "\<exists>gs'. apply_action r (demo_start pile) place_one_tile = Inr gs'"
  by (simp add: demo_eval place_one_tile_def)

text \<open>
  Claim C2, as the code has it. The game that \<open>create_game\<close> stores holds 1080 tiles in
  hands, board and pile together; its board holds one tile when there are fewer than 179
  AI players, none otherwise. A successful action that covers its tiles leaves the number
  unchanged, so it is 1080 in every state that such actions reach.
\<close>

theorem tile_count_conserved:
  "fst (create_game env db request) = initial_state env request
   \<and> game_total (initial_state env request) = 1080
   \<and> length (board (initial_state env request)) = (if num_ai_players request < 179 then 1 else 0)
   \<and> (apply_action r gs a = Inr gs' \<and> tiles_covered a \<longrightarrow> game_total gs' = game_total gs)
   \<and> (reachable_by tiles_covered gs \<longrightarrow> game_total gs = 1080)"
proof -
  have "(if 1 + nat (num_ai_players request) < 180 then 1 else 0)
      = (if num_ai_players request < 179 then 1 else (0::nat))"
    by auto
  then show ?thesis
    using initial_state_board [of env request]
    by (auto simp: initial_state_total apply_action_total reachable_by_total create_game_def Let_def)
qed

text \<open>
  The first placement of the one-player game.
\<close>

theorem tile_count_conserved_witness:
  "tiles_covered place_one_tile
   \<and> reachable_by tiles_covered (initial_state demo_env demo_request)
   \<and> num_ai_players demo_request < 179
   \<and> length (board (initial_state demo_env demo_request)) = 1
   \<and> map_sum id game_total
       (apply_action (\<lambda>i. i) (initial_state demo_env demo_request) place_one_tile) = Inr 1080"
proof -
  let ?g = "initial_state demo_env demo_request"
  have c: "tiles_covered place_one_tile"
    by (simp add: tiles_covered_def place_one_tile_def)
  have s: "reachable_by tiles_covered ?g" by (rule reachable_by.start)
  have n: "num_ai_players demo_request < 179" by (simp add: demo_request_def)
  obtain gs' where step: "apply_action (\<lambda>i. i) ?g place_one_tile = Inr gs'"
    unfolding demo_initial using demo_place_one by blast
  note t = tile_count_conserved [of demo_env "[]" demo_request "\<lambda>i. i" ?g place_one_tile gs']
  from t step c have "game_total gs' = 1080" by simp
  moreover from t n have "length (board ?g) = 1" by simp
  ultimately show ?thesis using c s n step by simp
qed

end
